theory Spec2Isabelle
  imports Main "HOL-Library.Sublist"
begin

section \<open>Text: Python strings as lists of Unicode code points\<close>

text \<open>
  A Python \<^verbatim>\<open>str\<close> is a sequence of Unicode code points. The regular expressions of
  \<^verbatim>\<open>extract_sql_from_response\<close> and \<^verbatim>\<open>str.strip\<close> classify code points beyond
  ASCII (white space such as U+00A0, the long s U+017F under \<^verbatim>\<open>re.IGNORECASE\<close>), so a
  character is modelled as its code point and a string as a list of them.
\<close>

type_synonym codepoint = nat
type_synonym pystr = "codepoint list"

definition str :: "string \<Rightarrow> pystr" where
  "str s = map of_char s"

text \<open>
  The code points for which \<^verbatim>\<open>str.isspace\<close> holds; the class \<^verbatim>\<open>\s\<close> of \<^verbatim>\<open>re\<close> on
  \<^verbatim>\<open>str\<close> patterns is the same set.
\<close>

definition isspace :: "codepoint \<Rightarrow> bool" where
  "isspace c \<longleftrightarrow>
     (9 \<le> c \<and> c \<le> 13) \<or> (28 \<le> c \<and> c \<le> 32) \<or> c = 133 \<or> c = 160 \<or> c = 5760 \<or>
     (8192 \<le> c \<and> c \<le> 8202) \<or> c = 8232 \<or> c = 8233 \<or> c = 8239 \<or> c = 8287 \<or> c = 12288"

definition lstrip :: "pystr \<Rightarrow> pystr" where
  "lstrip t = dropWhile isspace t"

definition rstrip :: "pystr \<Rightarrow> pystr" where
  "rstrip t = rev (dropWhile isspace (rev t))"

definition strip :: "pystr \<Rightarrow> pystr" where
  "strip t = rstrip (lstrip t)"

section \<open>The fragment of \<^verbatim>\<open>re\<close> used by the program: a backtracking matcher\<close>

text \<open>
  Python exceptions as values: \<open>IndexError\<close> is raised by list indexing, \<open>Raised m\<close> is
  an exception of an external library (the language-model client, \<^verbatim>\<open>sqlite3\<close>,
  \<^verbatim>\<open>pandas\<close>) whose \<^verbatim>\<open>str(e)\<close> is \<open>m\<close>.
\<close>

datatype py_error = IndexError | Raised pystr

definition exc_str :: "py_error \<Rightarrow> pystr" where
  "exc_str e = (case e of IndexError \<Rightarrow> str ''list index out of range'' | Raised m \<Rightarrow> m)"

record flags =
  ignorecase :: bool
  dotall :: bool

datatype cls = Lit codepoint | AnyChar | Space

datatype item =
    One cls
  | Star cls
  | StarLazy cls
  | Opt "item list"
  | GroupOpen
  | GroupClose

text \<open>
  Under \<^verbatim>\<open>re.IGNORECASE\<close> a literal of a \<^verbatim>\<open>str\<close> pattern matches every code point
  whose lower case is the literal's, or one of its listed equivalents. The table is given
  for the letters of the program's patterns (s, q, l); every other literal of the patterns
  is the uncased backtick.
\<close>

definition ci_variants :: "codepoint \<Rightarrow> codepoint list" where
  "ci_variants c =
     (if c = 115 then [115, 83, 383]
      else if c = 113 then [113, 81]
      else if c = 108 then [108, 76]
      else [c])"

fun cls_match :: "flags \<Rightarrow> cls \<Rightarrow> codepoint \<Rightarrow> bool" where
  "cls_match fl (Lit l) c = (if ignorecase fl then c \<in> set (ci_variants l) else c = l)"
| "cls_match fl AnyChar c = (dotall fl \<or> c \<noteq> 10)"
| "cls_match fl Space c = isspace c"

fun weight :: "item \<Rightarrow> nat" where
  "weight (Opt b) = Suc (sum_list (map weight b))"
| "weight _ = 1"

text \<open>
  \<open>rx_match fl p u mk g\<close> matches the items \<open>p\<close> at the start of \<open>u\<close>, in the order a
  backtracking engine tries the alternatives: a greedy star takes one more character first,
  a lazy star tries the rest of the pattern first, an optional group tries its body first.
  \<open>mk\<close> is the input at the last \<open>GroupOpen\<close>, \<open>g\<close> the text of group 1. The result is
  group 1 and the input left after the match.
\<close>

function rx_match :: "flags \<Rightarrow> item list \<Rightarrow> pystr \<Rightarrow> pystr \<Rightarrow> pystr \<Rightarrow> (pystr \<times> pystr) option" where
  "rx_match fl [] u mk g = Some (g, u)"
| "rx_match fl (One c # r) u mk g =
     (case u of
        [] \<Rightarrow> None
      | x # xs \<Rightarrow> if cls_match fl c x then rx_match fl r xs mk g else None)"
| "rx_match fl (Star c # r) u mk g =
     (case u of
        [] \<Rightarrow> rx_match fl r u mk g
      | x # xs \<Rightarrow>
          if cls_match fl c x
          then (case rx_match fl (Star c # r) xs mk g of
                  Some res \<Rightarrow> Some res
                | None \<Rightarrow> rx_match fl r u mk g)
          else rx_match fl r u mk g)"
| "rx_match fl (StarLazy c # r) u mk g =
     (case rx_match fl r u mk g of
        Some res \<Rightarrow> Some res
      | None \<Rightarrow>
          (case u of
             [] \<Rightarrow> None
           | x # xs \<Rightarrow> if cls_match fl c x then rx_match fl (StarLazy c # r) xs mk g else None))"
| "rx_match fl (Opt b # r) u mk g =
     (case rx_match fl (b @ r) u mk g of
        Some res \<Rightarrow> Some res
      | None \<Rightarrow> rx_match fl r u mk g)"
| "rx_match fl (GroupOpen # r) u mk g = rx_match fl r u u g"
| "rx_match fl (GroupClose # r) u mk g = rx_match fl r u mk (take (length mk - length u) mk)"
  by pat_completeness auto
termination
  by (relation "measures [\<lambda>(fl, p, u, mk, g). sum_list (map weight p), \<lambda>(fl, p, u, mk, g). length u]")
    auto

text \<open>
  \<^verbatim>\<open>re.findall\<close> with one group: the group of every match, scanning from the left and
  resuming after each match. (After an empty match the scan moves one character on; the
  program's patterns match at least six characters.)
\<close>

function findall :: "flags \<Rightarrow> item list \<Rightarrow> pystr \<Rightarrow> pystr list" where
  "findall fl p u =
     (case rx_match fl p u u [] of
        Some (g, rest) \<Rightarrow>
          if length rest < length u then g # findall fl p rest
          else g # (case u of [] \<Rightarrow> [] | x # xs \<Rightarrow> findall fl p xs)
      | None \<Rightarrow> (case u of [] \<Rightarrow> [] | x # xs \<Rightarrow> findall fl p xs))"
  by pat_completeness auto
termination
  by (relation "measure (\<lambda>(fl, p, u). length u)") auto

definition lits :: "string \<Rightarrow> item list" where
  "lits s = map (\<lambda>c. One (Lit c)) (str s)"

text \<open>\<^verbatim>\<open>matches[0]\<close>: indexing a Python list raises \<^verbatim>\<open>IndexError\<close> out of range.\<close>

definition py_index :: "'a list \<Rightarrow> nat \<Rightarrow> py_error + 'a" where
  "py_index xs i = (if i < length xs then Inr (xs ! i) else Inl IndexError)"

section \<open>\<^verbatim>\<open>llm_app.extract_sql_from_response\<close>\<close>

definition sql_pattern :: "item list" where
  "sql_pattern =
     lits ''```sql'' @ [Star Space, GroupOpen, StarLazy AnyChar, GroupClose, Star Space] @ lits ''```''"

definition code_pattern :: "item list" where
  "code_pattern =
     lits ''```'' @ [Opt [Star AnyChar], Star Space, GroupOpen, StarLazy AnyChar, GroupClose, Star Space]
       @ lits ''```''"

definition extract_sql_from_response :: "pystr \<Rightarrow> py_error + pystr" where
  "extract_sql_from_response response_text =
     (let matches = findall \<lparr>ignorecase = True, dotall = True\<rparr> sql_pattern response_text in
      if matches \<noteq> [] then map_sum id strip (py_index matches 0)
      else
        let matches = findall \<lparr>ignorecase = False, dotall = True\<rparr> code_pattern response_text in
        if matches \<noteq> [] then map_sum id strip (py_index matches 0)
        else Inr (strip response_text))"

section \<open>The world outside the program, and what a run does to it\<close>

text \<open>
  A table as \<^verbatim>\<open>pandas\<close> returns it: column names and rows; \<^verbatim>\<open>len(df)\<close> is the
  number of rows, \<^verbatim>\<open>pd.DataFrame()\<close> has neither columns nor rows.
\<close>

record dataframe =
  df_columns :: "pystr list"
  df_rows :: "pystr list list"

definition len_df :: "dataframe \<Rightarrow> nat" where
  "len_df df = length (df_rows df)"

definition empty_dataframe :: dataframe where
  "empty_dataframe = \<lparr>df_columns = [], df_rows = []\<rparr>"

text \<open>
  The environment of a run. \<open>DATABASE_SCHEMA\<close> is the module constant spliced into the
  prompt. \<open>chat_completions_create\<close> is the completion service as \<^verbatim>\<open>app.py\<close> calls it
  (\<^verbatim>\<open>openai.ChatCompletion.create\<close>): given the user message it either raises (\<open>Inl\<close>,
  with the exception's message) or returns the text of the first choice. \<open>OpenAI\<close> is the
  constructor of the client of \<^verbatim>\<open>llm_app.py\<close>: it either raises (no API key) or returns
  a client, and a client is what its \<^verbatim>\<open>chat.completions.create\<close> does with a user
  message. \<open>sqlite3_connect\<close> either raises or returns a connection; a connection is what
  \<^verbatim>\<open>pd.read_sql_query\<close> does with a statement on it: raise, or return a table.
\<close>

record env =
  DATABASE_SCHEMA :: pystr
  chat_completions_create :: "pystr \<Rightarrow> pystr + pystr"
  OpenAI :: "pystr + (pystr \<Rightarrow> pystr + pystr)"
  sqlite3_connect :: "pystr + (pystr \<Rightarrow> pystr + dataframe)"

record history_entry =
  question :: pystr
  sql :: pystr
  rows :: nat

text \<open>
  What a run does, in order: messages shown with \<^verbatim>\<open>st.error\<close>, calls of the completion
  service, statements given to the database, and writes to \<^verbatim>\<open>st.session_state\<close>.
\<close>

datatype event =
    St_error pystr
  | Api_call pystr
  | Sql_exec pystr
  | Set_generated_sql "pystr option"
  | Set_current_question "pystr option"
  | Append_history history_entry

section \<open>\<^verbatim>\<open>llm_app.py\<close>\<close>

definition get_db_connection :: "env \<Rightarrow> (pystr \<Rightarrow> pystr + dataframe) option \<times> event list" where
  "get_db_connection e =
     (case sqlite3_connect e of
        Inr conn \<Rightarrow> (Some conn, [])
      | Inl m \<Rightarrow> (None, [St_error (str ''Failed to connect to database: '' @ m)]))"

definition run_query :: "env \<Rightarrow> pystr \<Rightarrow> dataframe option \<times> event list" where
  "run_query e sql_text =
     (case get_db_connection e of
        (None, ev) \<Rightarrow> (None, ev)
      | (Some conn, ev) \<Rightarrow>
          (case conn sql_text of
             Inr df \<Rightarrow> (Some df, ev @ [Sql_exec sql_text])
           | Inl m \<Rightarrow>
               (None, ev @ [Sql_exec sql_text, St_error (str ''Error executing query: '' @ m)])))"

definition build_prompt :: "pystr \<Rightarrow> pystr \<Rightarrow> pystr" where
  "build_prompt schema q =
     str ''\<newline>You are an SQLite expert. Given the following database schema and a user's question, generate a valid SQLite query.\<newline>\<newline>''
     @ schema
     @ str ''\<newline>\<newline>User Question: ''
     @ q
     @ str ''\<newline>\<newline>Requirements:\<newline>1. Generate ONLY the SQL query, wrapped in ```sql``` code blocks\<newline>2. Use proper JOINs to get descriptive names from lookup tables\<newline>3. Use appropriate aggregations (COUNT, AVG, SUM, etc.) when needed\<newline>4. Add LIMIT clauses for queries that might return many rows (default LIMIT 100)\<newline>5. Use proper date/time functions for TIMESTAMP columns (use julianday() and strftime())\<newline>6. Make sure the query is syntactically correct for SQLite\<newline>7. Add helpful column aliases using AS\<newline>\<newline>Generate the SQL query:''"

text \<open>
  \<^verbatim>\<open>get_openai_client\<close> has no handler: when the constructor raises, so does the function.
\<close>

definition get_openai_client :: "env \<Rightarrow> py_error + (pystr \<Rightarrow> pystr + pystr)" where
  "get_openai_client e = (case OpenAI e of Inl m \<Rightarrow> Inl (Raised m) | Inr client \<Rightarrow> Inr client)"

text \<open>
  \<^verbatim>\<open>generate_sql_with_gpt\<close> gets the client on line 114, before its \<^verbatim>\<open>try\<close>: an
  exception there leaves the function, with no call made and nothing shown. Inside the
  \<^verbatim>\<open>try\<close> it returns the pair \<^verbatim>\<open>(sql_query, response)\<close>, or \<^verbatim>\<open>(None, None)\<close> from its
  \<^verbatim>\<open>except Exception\<close> handler. The response object is represented by its text.
\<close>

definition generate_sql_with_gpt ::
  "env \<Rightarrow> pystr \<Rightarrow> (py_error + pystr option \<times> pystr option) \<times> event list" where
  "generate_sql_with_gpt e q =
     (case get_openai_client e of
        Inl ex \<Rightarrow> (Inl ex, [])
      | Inr client \<Rightarrow>
          (let prompt = build_prompt (DATABASE_SCHEMA e) q in
           case client prompt of
             Inl m \<Rightarrow>
               (Inr (None, None), [Api_call prompt, St_error (str ''Error calling OpenAI API: '' @ m)])
           | Inr raw_text \<Rightarrow>
               (case extract_sql_from_response raw_text of
                  Inl ex \<Rightarrow>
                    (Inr (None, None),
                     [Api_call prompt, St_error (str ''Error calling OpenAI API: '' @ exc_str ex)])
                | Inr sql_query \<Rightarrow> (Inr (Some sql_query, Some raw_text), [Api_call prompt]))))"

text \<open>
  \<^verbatim>\<open>st.session_state\<close> between runs: each of the three keys is absent (\<open>None\<close>) or holds
  a value. The first lines of \<^verbatim>\<open>main\<close> give every absent key its default; from there
  on all three are present.
\<close>

record session_store =
  generated_sql_key :: "pystr option option"
  current_question_key :: "pystr option option"
  query_history_key :: "history_entry list option"

record session_state =
  generated_sql :: "pystr option"
  current_question :: "pystr option"
  query_history :: "history_entry list"

definition init_session_state :: "session_store \<Rightarrow> session_state" where
  "init_session_state d =
     \<lparr>generated_sql = (case generated_sql_key d of None \<Rightarrow> None | Some v \<Rightarrow> v),
      current_question = (case current_question_key d of None \<Rightarrow> None | Some v \<Rightarrow> v),
      query_history = (case query_history_key d of None \<Rightarrow> [] | Some h \<Rightarrow> h)\<rparr>"

definition stored :: "session_state \<Rightarrow> session_store" where
  "stored s =
     \<lparr>generated_sql_key = Some (generated_sql s),
      current_question_key = Some (current_question s),
      query_history_key = Some (query_history s)\<rparr>"

text \<open>The widgets of one run: what the text areas hold and which button was clicked.\<close>

record widgets =
  user_question :: pystr
  generate_button :: bool
  clear_button :: bool
  edited_sql :: pystr
  run_button :: bool

text \<open>Truth value of an optional string: \<^verbatim>\<open>None\<close> and the empty string are false.\<close>

definition truthy :: "pystr option \<Rightarrow> bool" where
  "truthy v = (case v of None \<Rightarrow> False | Some t \<Rightarrow> t \<noteq> [])"

text \<open>Lines 204 to 206: a question other than the recorded one discards the stored SQL.\<close>

definition invalidate_stale :: "session_state \<Rightarrow> pystr \<Rightarrow> session_state \<times> event list" where
  "invalidate_stale s q =
     (if current_question s \<noteq> Some q
      then (s\<lparr>generated_sql := None, current_question := None\<rparr>,
            [Set_generated_sql None, Set_current_question None])
      else (s, []))"

text \<open>
  Lines 202 to 212. The result carries the exception that ended the section, if any, the
  local variable \<^verbatim>\<open>user_question\<close>, which the branch reassigns to its stripped value,
  the session state and the events. An exception of \<^verbatim>\<open>generate_sql_with_gpt\<close> is not
  caught here: the writes made before it stay in the session state.
\<close>

definition generate_section ::
  "env \<Rightarrow> widgets \<Rightarrow> session_state \<Rightarrow> py_error option \<times> pystr \<times> session_state \<times> event list" where
  "generate_section e w s =
     (if generate_button w \<and> user_question w \<noteq> [] then
        let q = strip (user_question w);
            (s1, ev1) = invalidate_stale s q
        in case generate_sql_with_gpt e q of
             (Inl ex, ev2) \<Rightarrow> (Some ex, q, s1, ev1 @ ev2)
           | (Inr (sql_query, response), ev2) \<Rightarrow>
               if truthy sql_query
               then (None, q, s1\<lparr>generated_sql := sql_query, current_question := Some q\<rparr>,
                     ev1 @ ev2 @ [Set_generated_sql sql_query, Set_current_question (Some q)])
               else (None, q, s1, ev1 @ ev2)
      else (None, user_question w, s, []))"

text \<open>Lines 215 to 245, with \<open>q\<close> the local variable \<^verbatim>\<open>user_question\<close> at that point.\<close>

definition run_section :: "env \<Rightarrow> widgets \<Rightarrow> pystr \<Rightarrow> session_state \<Rightarrow> session_state \<times> event list" where
  "run_section e w q s =
     (if truthy (generated_sql s) then
        if run_button w \<and> strip (edited_sql w) \<noteq> [] then
          (case run_query e (edited_sql w) of
             (Some df, ev) \<Rightarrow>
               (let entry = \<lparr>question = q, sql = edited_sql w, rows = len_df df\<rparr>
                in (s\<lparr>query_history := query_history s @ [entry]\<rparr>, ev @ [Append_history entry]))
           | (None, ev) \<Rightarrow> (s, ev))
        else (s, [])
      else (s, []))"

text \<open>
  One run of \<^verbatim>\<open>main\<close>: the session state it leaves, the events, and the exception that
  ended the run, if any (the rest of the script is then not executed).
\<close>

definition main :: "env \<Rightarrow> widgets \<Rightarrow> session_store \<Rightarrow> session_store \<times> event list \<times> py_error option" where
  "main e w d =
     (let s0 = init_session_state d in
      case generate_section e w s0 of
        (Some ex, q, s1, ev1) \<Rightarrow> (stored s1, ev1, Some ex)
      | (None, q, s1, ev1) \<Rightarrow>
          (case run_section e w q s1 of (s2, ev2) \<Rightarrow> (stored s2, ev1 @ ev2, None)))"

section \<open>\<^verbatim>\<open>app.py\<close>\<close>

text \<open>
  \<^verbatim>\<open>query_db\<close> connects outside its \<^verbatim>\<open>try\<close>, so a failing connection propagates; a
  failing statement is reported and an empty table returned.
\<close>

definition query_db :: "env \<Rightarrow> pystr \<Rightarrow> (py_error + dataframe) \<times> event list" where
  "query_db e sql_query =
     (case sqlite3_connect e of
        Inl m \<Rightarrow> (Inl (Raised m), [])
      | Inr conn \<Rightarrow>
          (case conn sql_query of
             Inr df \<Rightarrow> (Inr df, [Sql_exec sql_query])
           | Inl m \<Rightarrow> (Inr empty_dataframe, [Sql_exec sql_query, St_error (str ''SQL error: '' @ m)])))"

text \<open>\<^verbatim>\<open>ask_openai\<close> has no handler: an exception of the service leaves the function.\<close>

definition ask_openai :: "env \<Rightarrow> pystr \<Rightarrow> (py_error + pystr) \<times> event list" where
  "ask_openai e prompt =
     (case chat_completions_create e prompt of
        Inl m \<Rightarrow> (Inl (Raised m), [Api_call prompt])
      | Inr content \<Rightarrow> (Inr content, [Api_call prompt]))"

text \<open>
  Lines 77 to 86, the handler of the button \<^verbatim>\<open>Ask AI\<close>: the result is the table shown, if
  any, or the exception that ended the run.
\<close>

definition ask_ai_section :: "env \<Rightarrow> bool \<Rightarrow> pystr \<Rightarrow> (py_error + dataframe option) \<times> event list" where
  "ask_ai_section e ask_button user_prompt =
     (if ask_button then
        if strip user_prompt \<noteq> [] then
          (case ask_openai e (str ''Generate a valid SQLite query for this database: '' @ user_prompt) of
             (Inl ex, ev) \<Rightarrow> (Inl ex, ev)
           | (Inr ai_sql, ev) \<Rightarrow>
               (case query_db e ai_sql of
                  (Inl ex, ev') \<Rightarrow> (Inl ex, ev @ ev')
                | (Inr df, ev') \<Rightarrow> (Inr (Some df), ev @ ev')))
        else (Inr None, [])
      else (Inr None, []))"

section \<open>Notions used to state and analyse the extractor\<close>

text \<open>
  The fence, a text that equals a pattern literal up to case, an opening fence tagged
  \<^verbatim>\<open>sql\<close> at the start of a text.
\<close>

definition fence :: pystr where
  "fence = str ''```''"

definition ci_equal :: "pystr \<Rightarrow> pystr \<Rightarrow> bool" where
  "ci_equal p t = list_all2 (\<lambda>l c. c \<in> set (ci_variants l)) p t"

definition sql_open_at :: "pystr \<Rightarrow> bool" where
  "sql_open_at u \<longleftrightarrow> 6 \<le> length u \<and> ci_equal (str ''```sql'') (take 6 u)"

text \<open>
  \<open>find_close u\<close> is the first suffix of \<open>u\<close> that is a fence after white space, if there is
  one; \<open>block_tail\<close> is the part the two patterns share, from the first \<^verbatim>\<open>\s*\<close> on.
\<close>

fun find_close :: "pystr \<Rightarrow> pystr option" where
  "find_close [] = None"
| "find_close (x # xs) =
     (if prefix fence (dropWhile isspace (x # xs)) then Some (x # xs) else find_close xs)"


definition block_tail :: "item list" where
  "block_tail = [Star Space, GroupOpen, StarLazy AnyChar, GroupClose, Star Space] @ lits ''```''"

section \<open>Concrete runs\<close>

text \<open>
  A database that knows one statement, a completion service that is out of quota (its
  client can be built), a session in which question A produced \<^verbatim>\<open>SELECT 1\<close>, and two
  clicks with question B in the text area. The theorems below are instantiated on them.
\<close>

definition demo_conn :: "pystr \<Rightarrow> pystr + dataframe" where
  "demo_conn stmt =
     (if stmt = str ''SELECT 1'' then Inr \<lparr>df_columns = [str ''1''], df_rows = [[str ''1'']]\<rparr>
      else Inl (str ''syntax error''))"

definition demo_env :: env where
  "demo_env =
     \<lparr>DATABASE_SCHEMA = [],
      chat_completions_create = (\<lambda>p. Inl (str ''quota exceeded'')),
      OpenAI = Inr (\<lambda>p. Inl (str ''quota exceeded'')),
      sqlite3_connect = Inr demo_conn\<rparr>"

definition demo_state :: session_state where
  "demo_state =
     \<lparr>generated_sql = Some (str ''SELECT 1''), current_question = Some (str ''A''), query_history = []\<rparr>"

definition demo_run_click :: widgets where
  "demo_run_click =
     \<lparr>user_question = str ''B'', generate_button = False, clear_button = False,
      edited_sql = str ''SELECT 1'', run_button = True\<rparr>"

definition demo_generate_click :: widgets where
  "demo_generate_click =
     \<lparr>user_question = str ''B'', generate_button = True, clear_button = False,
      edited_sql = [], run_button = False\<rparr>"

section \<open>Properties of the response extractor\<close>

declare findall.simps [simp del]
declare rx_match.simps [simp del]

subsection \<open>What the matcher does on the two patterns\<close>

lemma fence_eq: "fence = [96, 96, 96]"
  by (simp add: fence_def str_def)

lemma lits_fence: "lits ''```'' = [One (Lit 96), One (Lit 96), One (Lit 96)]"
  by (simp add: lits_def str_def)

lemma not_space_96: "\<not> isspace 96"
  by (simp add: isspace_def)

lemma ci_variants_96: "ci_variants 96 = [96]"
  by (simp add: ci_variants_def)

lemma fence_then:
  "rx_match fl (lits ''```'' @ r) u mk g = (if prefix fence u then rx_match fl r (drop 3 u) mk g else None)"
  by (simp add: rx_match.simps lits_fence fence_eq ci_variants_96 split: list.splits)

lemma fence_match:
  "rx_match fl (lits ''```'') u mk g = (if prefix fence u then Some (g, drop 3 u) else None)"
  using fence_then [of fl "[]" u mk g] by (simp add: rx_match.simps(1))

lemma prefix_fence_space: "isspace x \<Longrightarrow> \<not> prefix fence (x # xs)"
  using not_space_96 by (auto simp: fence_eq)

lemma space_fence:
  "rx_match fl (Star Space # lits ''```'') u mk g = rx_match fl (lits ''```'') (dropWhile isspace u) mk g"
proof (induction u)
  case Nil
  show ?case by (simp add: rx_match.simps(3))
next
  case (Cons x xs)
  show ?case
  proof (cases "isspace x")
    case True
    then have "rx_match fl (lits ''```'') (x # xs) mk g = None"
      by (simp add: fence_match prefix_fence_space)
    with True Cons show ?thesis by (simp add: rx_match.simps(3) split: option.splits)
  next
    case False
    then show ?thesis by (simp add: rx_match.simps(3))
  qed
qed

lemma close_tail:
  "rx_match fl (GroupClose # Star Space # lits ''```'') u mk g =
     (if prefix fence (dropWhile isspace u)
      then Some (take (length mk - length u) mk, drop 3 (dropWhile isspace u)) else None)"
  by (simp add: rx_match.simps(7) space_fence fence_match)

lemma lazy_scan:
  "dotall fl \<Longrightarrow>
   rx_match fl (StarLazy AnyChar # GroupClose # Star Space # lits ''```'') u mk g =
     map_option (\<lambda>v. (take (length mk - length v) mk, drop 3 (dropWhile isspace v))) (find_close u)"
proof (induction u)
  case Nil
  then show ?case by (simp add: rx_match.simps(4) close_tail fence_eq)
next
  case (Cons x xs)
  then show ?case by (simp add: rx_match.simps(4) close_tail)
qed

lemma find_close_None_suffix: "find_close (x # xs) = None \<Longrightarrow> find_close xs = None"
  by (simp split: if_splits)

lemma find_close_None_head: "find_close w = None \<Longrightarrow> \<not> prefix fence (dropWhile isspace w)"
  by (cases w) (simp_all add: fence_eq split: if_splits)

lemma find_close_None_strip:
  "find_close (dropWhile isspace w) = None \<Longrightarrow> \<not> prefix fence (dropWhile isspace w)"
  using find_close_None_head [of "dropWhile isspace w"] by simp

lemma find_close_dropWhile_None:
  "find_close (dropWhile isspace u) = None \<Longrightarrow> find_close u = None"
proof (induction u)
  case Nil
  then show ?case by simp
next
  case (Cons x xs)
  show ?case
  proof (cases "isspace x")
    case True
    with Cons have "find_close xs = None" by simp
    moreover from Cons.prems True have "\<not> prefix fence (dropWhile isspace xs)"
      using find_close_None_strip [of xs] by simp
    ultimately show ?thesis using True by simp
  next
    case False
    with Cons.prems show ?thesis by simp
  qed
qed

lemma open_scan:
  "dotall fl \<Longrightarrow>
   rx_match fl (GroupOpen # StarLazy AnyChar # GroupClose # Star Space # lits ''```'') u mk g =
     map_option (\<lambda>v. (take (length u - length v) u, drop 3 (dropWhile isspace v))) (find_close u)"
  by (simp add: rx_match.simps(6) lazy_scan)

lemma block_tail_match:
  assumes "dotall fl"
  shows "rx_match fl block_tail u mk g =
     map_option (\<lambda>v. (take (length (dropWhile isspace u) - length v) (dropWhile isspace u),
                       drop 3 (dropWhile isspace v)))
       (find_close (dropWhile isspace u))"
proof (induction u)
  case Nil
  show ?case using assms by (simp add: block_tail_def rx_match.simps(3) open_scan)
next
  case (Cons x xs)
  show ?case
  proof (cases "isspace x")
    case True
    show ?thesis
    proof (cases "find_close (dropWhile isspace xs)")
      case None
      then have "find_close xs = None" by (rule find_close_dropWhile_None)
      moreover from None have "\<not> prefix fence (dropWhile isspace xs)"
        by (rule find_close_None_strip)
      ultimately have "find_close (x # xs) = None" using True by simp
      with None True Cons assms show ?thesis
        by (simp add: block_tail_def rx_match.simps(3) open_scan)
    next
      case (Some v)
      with True Cons assms show ?thesis
        by (simp add: block_tail_def rx_match.simps(3) open_scan)
    qed
  next
    case False
    with assms show ?thesis by (simp add: block_tail_def rx_match.simps(3) open_scan)
  qed
qed

lemma rx_lits_ci:
  "ignorecase fl \<Longrightarrow>
   rx_match fl (map (\<lambda>c. One (Lit c)) ls @ r) u mk g =
     (if length ls \<le> length u \<and> ci_equal ls (take (length ls) u)
      then rx_match fl r (drop (length ls) u) mk g else None)"
proof (induction ls arbitrary: u)
  case Nil
  then show ?case by (simp add: ci_equal_def)
next
  case (Cons l ls)
  then show ?case
    by (cases u) (simp_all add: rx_match.simps(2) ci_equal_def)
qed

lemma sql_pattern_split: "sql_pattern = map (\<lambda>c. One (Lit c)) (str ''```sql'') @ block_tail"
  by (simp add: sql_pattern_def block_tail_def lits_def)

lemma length_sql_tag: "length (str ''```sql'') = 6"
  by (simp add: str_def)

lemma sql_pattern_match:
  "rx_match \<lparr>ignorecase = True, dotall = True\<rparr> sql_pattern u mk g =
     (if sql_open_at u then rx_match \<lparr>ignorecase = True, dotall = True\<rparr> block_tail (drop 6 u) mk g
      else None)"
  by (simp add: sql_pattern_split rx_lits_ci length_sql_tag sql_open_at_def)

lemma findall_first:
  "\<lbrakk>\<forall>i<n. rx_match fl p (drop i u) (drop i u) [] = None;
    rx_match fl p (drop n u) (drop n u) [] = Some (g, rest); n \<le> length u\<rbrakk>
   \<Longrightarrow> \<exists>ms. findall fl p u = g # ms"
proof (induction n arbitrary: u)
  case 0
  then show ?case by (subst findall.simps) simp
next
  case (Suc n)
  then obtain x xs where u: "u = x # xs" by (cases u) auto
  from Suc.prems(1) have "rx_match fl p u u [] = None" by (metis drop0 zero_less_Suc)
  then have f: "findall fl p u = findall fl p xs"
    by (subst findall.simps) (simp add: u)
  have "\<forall>i<n. rx_match fl p (drop i xs) (drop i xs) [] = None"
    using Suc.prems(1) u by (metis Suc_less_eq drop_Suc_Cons)
  moreover have "rx_match fl p (drop n xs) (drop n xs) [] = Some (g, rest)"
    using Suc.prems(2) u by simp
  moreover have "n \<le> length xs" using Suc.prems(3) u by simp
  ultimately show ?case using Suc.IH f by simp
qed

lemma rstrip_all_space: "\<forall>c\<in>set b. isspace c \<Longrightarrow> rstrip b = []"
  by (simp add: rstrip_def)

lemma rstrip_Cons: "\<not> (\<forall>c\<in>set (x # b). isspace c) \<Longrightarrow> rstrip (x # b) = x # rstrip b"
proof (cases "\<forall>c\<in>set b. isspace c")
  case True
  assume "\<not> (\<forall>c\<in>set (x # b). isspace c)"
  with True have nx: "\<not> isspace x" by simp
  from True have "dropWhile isspace (rev b @ [x]) = dropWhile isspace [x]"
    by (intro dropWhile_append2) simp
  moreover from True have "dropWhile isspace (rev b) = []" by simp
  ultimately show ?thesis using nx by (simp add: rstrip_def)
next
  case False
  then obtain c where "c \<in> set (rev b)" "\<not> isspace c" by auto
  then show ?thesis by (simp add: rstrip_def dropWhile_append1)
qed

lemma rstrip_prefix: "take (length (rstrip b)) (b @ t) = rstrip b"
proof -
  have "rev b = takeWhile isspace (rev b) @ dropWhile isspace (rev b)" by simp
  then have "b = rstrip b @ rev (takeWhile isspace (rev b))"
    by (metis rev_append rev_rev_ident rstrip_def)
  then obtain t' where "b = rstrip b @ t'" ..
  then have "b @ t = rstrip b @ (t' @ t)" by (metis append.assoc)
  then show ?thesis by (metis append_eq_conv_conj)
qed

lemma rstrip_idem: "rstrip (rstrip b) = rstrip b"
  by (simp add: rstrip_def)

lemma lstrip_rstrip_lstrip: "lstrip (rstrip (lstrip b)) = rstrip (lstrip b)"
proof (cases "lstrip b")
  case Nil
  then have "rstrip (lstrip b) = []" by (simp add: rstrip_def)
  then show ?thesis by (simp add: lstrip_def)
next
  case (Cons y ys)
  then have "\<not> isspace y" unfolding lstrip_def by (metis hd_dropWhile list.sel(1) list.distinct(1))
  then have "rstrip (y # ys) = y # rstrip ys" by (simp add: rstrip_Cons)
  with Cons \<open>\<not> isspace y\<close> show ?thesis by (simp add: lstrip_def)
qed

lemma strip_idem: "strip (strip b) = strip b"
  by (simp add: strip_def lstrip_rstrip_lstrip rstrip_idem)

lemma dropWhile_fence: "dropWhile isspace (b @ fence @ post) = dropWhile isspace b @ fence @ post"
  using not_space_96 by (simp add: fence_eq dropWhile_append3)

lemma dropWhile_is_drop:
  assumes "\<not> (\<forall>c\<in>set b. isspace c)"
  shows "\<exists>k<length b. dropWhile isspace (b @ fence @ post) = drop k (b @ fence @ post)"
proof -
  let ?k = "length (takeWhile isspace b)"
  from assms have "dropWhile isspace b \<noteq> []" by simp
  moreover have "?k + length (dropWhile isspace b) = length b"
    by (metis length_append takeWhile_dropWhile_id)
  ultimately have k: "?k < length b"
    by (cases "dropWhile isspace b") auto
  have "dropWhile isspace b = drop ?k b"
    by (rule dropWhile_eq_drop)
  then have "dropWhile isspace (b @ fence @ post) = drop ?k b @ fence @ post"
    by (simp only: dropWhile_fence)
  also have "\<dots> = drop ?k (b @ fence @ post)"
    using k by simp
  finally show ?thesis using k by blast
qed

lemma find_close_body:
  "\<forall>j<length b. \<not> prefix fence (drop j (b @ fence @ post)) \<Longrightarrow>
   find_close (b @ fence @ post) = Some (drop (length (rstrip b)) (b @ fence @ post))"
proof (induction b)
  case Nil
  have "prefix fence (dropWhile isspace (fence @ post))"
    using dropWhile_fence [of "[]" post] by simp
  then show ?case by (simp add: fence_eq rstrip_def)
next
  case (Cons x b)
  show ?case
  proof (cases "\<forall>c\<in>set (x # b). isspace c")
    case True
    then have "dropWhile isspace (x # b) = []" by simp
    then have "dropWhile isspace ((x # b) @ fence @ post) = fence @ post"
      using dropWhile_fence [of "x # b" post] by simp
    then have "find_close ((x # b) @ fence @ post) = Some ((x # b) @ fence @ post)" by simp
    with True show ?thesis by (simp add: rstrip_all_space)
  next
    case False
    from dropWhile_is_drop [OF False, of post] Cons.prems
    have np: "\<not> prefix fence (dropWhile isspace ((x # b) @ fence @ post))"
      by metis
    have "\<forall>j<length b. \<not> prefix fence (drop j (b @ fence @ post))"
    proof (intro allI impI)
      fix j assume "j < length b"
      then have "Suc j < length (x # b)" by simp
      with Cons.prems have "\<not> prefix fence (drop (Suc j) ((x # b) @ fence @ post))" by blast
      then show "\<not> prefix fence (drop j (b @ fence @ post))" by simp
    qed
    with Cons.IH have "find_close (b @ fence @ post) = Some (drop (length (rstrip b)) (b @ fence @ post))"
      by simp
    with np False show ?thesis by (simp add: rstrip_Cons)
  qed
qed

lemma first_close_lstrip:
  assumes "\<forall>j<length b. \<not> prefix fence (drop j (b @ fence @ post))"
  shows "\<forall>j<length (lstrip b). \<not> prefix fence (drop j (lstrip b @ fence @ post))"
proof (intro allI impI)
  fix j assume j: "j < length (lstrip b)"
  let ?k = "length (takeWhile isspace b)"
  have l: "lstrip b = drop ?k b" unfolding lstrip_def by (rule dropWhile_eq_drop)
  have k: "?k \<le> length b" by (rule length_takeWhile_le)
  from j l have jk: "j + ?k < length b" by simp
  have "lstrip b @ fence @ post = drop ?k (b @ fence @ post)"
    using k by (simp add: l)
  then have e: "drop j (lstrip b @ fence @ post) = drop (j + ?k) (b @ fence @ post)"
    by (simp only: drop_drop)
  from assms jk have "\<not> prefix fence (drop (j + ?k) (b @ fence @ post))" by blast
  then show "\<not> prefix fence (drop j (lstrip b @ fence @ post))"
    unfolding e .
qed

lemma block_tail_body:
  assumes "dotall fl"
    and "\<forall>j<length body. \<not> prefix fence (drop j (body @ fence @ post))"
  shows "\<exists>rest. rx_match fl block_tail (body @ fence @ post) mk g = Some (strip body, rest)"
proof -
  let ?b = "lstrip body"
  let ?u = "?b @ fence @ post"
  have u: "dropWhile isspace (body @ fence @ post) = ?u"
    by (simp add: dropWhile_fence lstrip_def)
  have fc: "find_close ?u = Some (drop (length (rstrip ?b)) ?u)"
    using first_close_lstrip [OF assms(2)] by (rule find_close_body)
  have n: "length (rstrip ?b) \<le> length ?u"
    by (metis rstrip_prefix length_take min.cobounded2 min.commute)
  then have "length ?u - length (drop (length (rstrip ?b)) ?u) = length (rstrip ?b)"
    by simp
  then have "take (length ?u - length (drop (length (rstrip ?b)) ?u)) ?u = strip body"
    by (simp only: rstrip_prefix strip_def)
  with assms(1) fc u show ?thesis
    by (simp only: block_tail_match option.map_sel option.simps) simp
qed


lemma find_close_None_drop: "find_close u = None \<Longrightarrow> find_close (drop k u) = None"
proof (induction k arbitrary: u)
  case 0
  then show ?case by simp
next
  case (Suc k)
  then show ?case by (cases u) (simp_all split: if_splits)
qed

lemma find_close_None_dropWhile: "find_close u = None \<Longrightarrow> find_close (dropWhile isspace u) = None"
  by (simp add: dropWhile_eq_drop find_close_None_drop)

lemma block_tail_None:
  "dotall fl \<Longrightarrow> rx_match fl block_tail u mk g = None \<longleftrightarrow> find_close u = None"
  using find_close_dropWhile_None [of u] find_close_None_dropWhile [of u]
  by (simp add: block_tail_match) blast

lemma star_any_None:
  assumes "dotall fl" and "rx_match fl (Star AnyChar # block_tail) u mk g = None"
  shows "rx_match fl block_tail u mk g = None"
  using assms by (cases u) (auto simp: rx_match.simps(3) split: option.splits)

lemma star_any_group_empty:
  assumes "dotall fl"
  shows "rx_match fl (Star AnyChar # block_tail) u mk g = Some (g', rest) \<Longrightarrow> g' = []"
proof (induction u)
  case Nil
  with assms show ?case by (simp add: rx_match.simps(3) block_tail_match)
next
  case (Cons x xs)
  show ?case
  proof (cases "rx_match fl (Star AnyChar # block_tail) xs mk g")
    case (Some res)
    with Cons assms show ?thesis by (simp add: rx_match.simps(3))
  next
    case None
    with assms have "rx_match fl block_tail xs mk g = None" by (rule star_any_None)
    with assms have n: "find_close xs = None" by (simp add: block_tail_None)
    from None Cons.prems assms have m: "rx_match fl block_tail (x # xs) mk g = Some (g', rest)"
      by (simp add: rx_match.simps(3))
    show ?thesis
    proof (cases "isspace x")
      case True
      with n have "find_close (dropWhile isspace (x # xs)) = None"
        by (simp add: find_close_None_dropWhile)
      with m assms show ?thesis by (simp add: block_tail_match)
    next
      case False
      with m n assms show ?thesis by (simp add: block_tail_match split: if_splits)
    qed
  qed
qed

lemma code_pattern_split: "code_pattern = lits ''```'' @ Opt [Star AnyChar] # block_tail"
  by (simp add: code_pattern_def block_tail_def)

lemma code_pattern_group_empty:
  assumes "dotall fl" and "rx_match fl code_pattern u mk g = Some (g', rest)"
  shows "g' = []"
proof -
  from assms(2) have "rx_match fl (Opt [Star AnyChar] # block_tail) (drop 3 u) mk g = Some (g', rest)"
    by (simp add: code_pattern_split fence_then split: if_splits)
  then have "rx_match fl (Star AnyChar # block_tail) (drop 3 u) mk g = Some (g', rest)"
    using star_any_None [OF assms(1), of "drop 3 u" mk g]
    by (cases "rx_match fl (Star AnyChar # block_tail) (drop 3 u) mk g") (simp_all add: rx_match.simps(5))
  with assms(1) show ?thesis by (rule star_any_group_empty)
qed

lemma findall_None:
  "rx_match fl p u u [] = None \<Longrightarrow>
   findall fl p u = (case u of [] \<Rightarrow> [] | x # xs \<Rightarrow> findall fl p xs)"
  by (subst findall.simps) simp

lemma findall_Some:
  "rx_match fl p u u [] = Some (g, rest) \<Longrightarrow> \<exists>ms. findall fl p u = g # ms"
  by (subst findall.simps) simp

lemma findall_head:
  "findall fl p u = m # ms \<Longrightarrow> \<exists>v rest. rx_match fl p v v [] = Some (m, rest)"
proof (induction u)
  case Nil
  show ?case
  proof (cases "rx_match fl p [] [] []")
    case None
    then have "findall fl p [] = []" by (simp add: findall_None)
    with Nil show ?thesis by simp
  next
    case (Some a)
    obtain g rest where a: "a = (g, rest)" by (cases a)
    with Some obtain ms' where "findall fl p [] = g # ms'" using findall_Some by blast
    with Nil have "g = m" by simp
    with Some a show ?thesis by blast
  qed
next
  case (Cons x xs)
  show ?case
  proof (cases "rx_match fl p (x # xs) (x # xs) []")
    case None
    then have "findall fl p (x # xs) = findall fl p xs" by (simp add: findall_None)
    with Cons show ?thesis by simp
  next
    case (Some a)
    obtain g rest where a: "a = (g, rest)" by (cases a)
    with Some obtain ms' where "findall fl p (x # xs) = g # ms'" using findall_Some by blast
    with Cons.prems have "g = m" by simp
    with Some a show ?thesis by blast
  qed
qed

text \<open>
  Whenever the second pattern is the one that applies, the function returns the empty
  string: every match of that pattern has an empty group 1.
\<close>

lemma generic_branch_returns_empty:
  assumes "findall \<lparr>ignorecase = True, dotall = True\<rparr> sql_pattern t = []"
    and "findall \<lparr>ignorecase = False, dotall = True\<rparr> code_pattern t \<noteq> []"
  shows "extract_sql_from_response t = Inr []"
proof -
  from assms(2) obtain m ms where f: "findall \<lparr>ignorecase = False, dotall = True\<rparr> code_pattern t = m # ms"
    by (cases "findall \<lparr>ignorecase = False, dotall = True\<rparr> code_pattern t") auto
  then obtain v rest where "rx_match \<lparr>ignorecase = False, dotall = True\<rparr> code_pattern v v [] = Some (m, rest)"
    using findall_head by blast
  then have "m = []" by (rule code_pattern_group_empty [rotated]) simp
  with assms(1) f show ?thesis
    by (simp add: extract_sql_from_response_def py_index_def strip_def lstrip_def rstrip_def)
qed

text \<open>
  What the first pattern does find. Let the input be \<open>pre\<close>, an opening fence followed by
  the letters \<^verbatim>\<open>sql\<close> in any case, \<open>body\<close>, a fence and \<open>post\<close>, where no such opening
  starts inside \<open>pre\<close> and no fence starts inside \<open>body\<close>. Then the function returns \<open>body\<close>
  stripped, whatever \<open>pre\<close> and \<open>post\<close> contain. The opening is recognised by its first
  six characters only: the letters after \<^verbatim>\<open>sql\<close> belong to \<open>body\<close>.
\<close>

lemma first_sql_opener_block:
  assumes op: "ci_equal (str ''```sql'') opener"
    and first_open: "\<forall>i<length pre. \<not> sql_open_at (drop i (pre @ opener @ body @ fence @ post))"
    and first_close: "\<forall>j<length body. \<not> prefix fence (drop j (body @ fence @ post))"
  shows "extract_sql_from_response (pre @ opener @ body @ fence @ post) = Inr (strip body)"
proof -
  let ?t = "pre @ opener @ body @ fence @ post"
  let ?fl = "\<lparr>ignorecase = True, dotall = True\<rparr>"
  from op have len: "length opener = 6"
    by (simp add: ci_equal_def list_all2_lengthD [symmetric] length_sql_tag)
  with op have o: "sql_open_at (opener @ body @ fence @ post)"
    by (simp add: sql_open_at_def)
  have a: "\<forall>i<length pre. rx_match ?fl sql_pattern (drop i ?t) (drop i ?t) [] = None"
    using first_open by (simp only: sql_pattern_match) simp
  obtain rest where
    "rx_match ?fl block_tail (body @ fence @ post) (opener @ body @ fence @ post) [] = Some (strip body, rest)"
    using block_tail_body [OF _ first_close, of ?fl] by auto
  with o len have b: "rx_match ?fl sql_pattern (drop (length pre) ?t) (drop (length pre) ?t) [] =
      Some (strip body, rest)"
    by (simp add: sql_pattern_match)
  obtain ms where "findall ?fl sql_pattern ?t = strip body # ms"
    using findall_first [OF a b] by auto
  then show ?thesis
    by (simp add: extract_sql_from_response_def py_index_def strip_idem)
qed

lemma first_sql_opener_block_example:
  "ci_equal (str ''```sql'') (str ''```SQL'') \<and>
   str ''``` -'' @ str ''```SQL'' @ str '' 1 x'' @ fence @ str ''```y```'' = str ''``` -```SQL 1 x``````y```'' \<and>
   extract_sql_from_response (str ''``` -```SQL 1 x``````y```'') = Inr (str ''1 x'')"
proof -
  have h1: "ci_equal (str ''```sql'') (str ''```SQL'')"
    by (simp add: ci_equal_def str_def ci_variants_def)
  have h2: "\<forall>i<length (str ''``` -''). \<not> sql_open_at (drop i (str ''``` -'' @ str ''```SQL'' @ str '' 1 x'' @ fence @ str ''```y```''))"
    by (simp add: str_def fence_eq sql_open_at_def ci_equal_def ci_variants_def All_less_Suc)
  have h3: "\<forall>j<length (str '' 1 x''). \<not> prefix fence (drop j (str '' 1 x'' @ fence @ str ''```y```''))"
    by (simp add: str_def fence_eq All_less_Suc)
  have s: "strip (str '' 1 x'') = str ''1 x''"
    by (simp add: strip_def lstrip_def rstrip_def str_def isspace_def)
  have t: "str ''``` -'' @ str ''```SQL'' @ str '' 1 x'' @ fence @ str ''```y```'' = str ''``` -```SQL 1 x``````y```''"
    by (simp add: str_def fence_eq)
  from first_sql_opener_block [OF h1 h2 h3] h1 show ?thesis
    by (simp only: s t)
qed

subsection \<open>The claims about the extractor\<close>

text \<open>
  C7. For every input string, \<^verbatim>\<open>extract_sql_from_response\<close> is total: it raises no
  exception (the only operation of its body that can raise on a string, \<^verbatim>\<open>matches[0]\<close>,
  is guarded by \<^verbatim>\<open>if matches\<close>) and it returns a string. The matcher and
  \<^verbatim>\<open>findall\<close> are total functions, so the search itself always ends.
\<close>

theorem extract_total: "\<exists>r. extract_sql_from_response response_text = Inr r"
  unfolding extract_sql_from_response_def Let_def py_index_def
  by (simp add: neq_Nil_conv)

text \<open>
  C1. An input with no block tagged \<^verbatim>\<open>sql\<close> and one generic fenced block should give the
  block's trimmed content. It does not: under \<^verbatim>\<open>re.DOTALL\<close> the greedy \<^verbatim>\<open>(?:.*)?\<close> of
  the second pattern runs to the last fence of the input, so group 1 is empty. For the
  response consisting of a fence, a line \<^verbatim>\<open>SELECT 1\<close> and a fence, the function returns
  the empty string, not \<^verbatim>\<open>SELECT 1\<close>.
\<close>

theorem generic_block_content_lost:
  "extract_sql_from_response (str ''```\<newline>SELECT 1\<newline>```'') = Inr []"
  by (simp add: extract_sql_from_response_def findall.simps rx_match.simps sql_pattern_def
      code_pattern_def lits_def str_def isspace_def ci_variants_def py_index_def strip_def
      lstrip_def rstrip_def)

text \<open>
  C8. An input with a fenced block tagged \<^verbatim>\<open>sql\<close> should give the trimmed content of
  the first such block. The first pattern does not look at what follows the letters
  \<^verbatim>\<open>sql\<close>, so a block with a longer tag is taken for one: for a response with a block
  tagged \<^verbatim>\<open>sqlite\<close> holding \<^verbatim>\<open>a\<close> and then a block tagged \<^verbatim>\<open>sql\<close> holding
  \<^verbatim>\<open>b\<close>, the function returns the rest of the first tag and that block's content,
  \<^verbatim>\<open>ite\<close>, a line break and \<^verbatim>\<open>a\<close>, not \<^verbatim>\<open>b\<close>.
\<close>

theorem longer_tag_taken_for_sql:
  "extract_sql_from_response (str ''```sqlite\<newline>a\<newline>```\<newline>```sql\<newline>b\<newline>```'') =
     Inr (str ''ite\<newline>a'')"
  by (simp add: extract_sql_from_response_def findall.simps rx_match.simps sql_pattern_def
      code_pattern_def lits_def str_def isspace_def ci_variants_def py_index_def strip_def
      lstrip_def rstrip_def)

section \<open>Properties of query execution\<close>

text \<open>
  C6. When the statement fails on an open connection, with message \<open>m\<close>, both executors
  report the failure with \<open>m\<close> in the message and return no rows:
  \<^verbatim>\<open>llm_app.run_query\<close> returns \<^verbatim>\<open>None\<close>, \<^verbatim>\<open>app.query_db\<close> returns the empty table.
\<close>

theorem failing_statement_no_table:
  assumes "sqlite3_connect e = Inr conn" and "conn stmt = Inl m"
  shows "run_query e stmt = (None, [Sql_exec stmt, St_error (str ''Error executing query: '' @ m)]) \<and>
         query_db e stmt =
           (Inr \<lparr>df_columns = [], df_rows = []\<rparr>, [Sql_exec stmt, St_error (str ''SQL error: '' @ m)])"
  using assms by (simp add: run_query_def get_db_connection_def query_db_def empty_dataframe_def)

theorem failing_statement_no_table_witness:
  "sqlite3_connect demo_env = Inr demo_conn \<and>
   demo_conn (str ''SELEKT * FROM patients'') = Inl (str ''syntax error'') \<and>
   run_query demo_env (str ''SELEKT * FROM patients'') =
     (None, [Sql_exec (str ''SELEKT * FROM patients''),
             St_error (str ''Error executing query: '' @ str ''syntax error'')]) \<and>
   query_db demo_env (str ''SELEKT * FROM patients'') =
     (Inr \<lparr>df_columns = [], df_rows = []\<rparr>,
      [Sql_exec (str ''SELEKT * FROM patients''), St_error (str ''SQL error: '' @ str ''syntax error'')])"
proof -
  have h1: "sqlite3_connect demo_env = Inr demo_conn"
    by (simp add: demo_env_def)
  have h2: "demo_conn (str ''SELEKT * FROM patients'') = Inl (str ''syntax error'')"
    by (simp add: demo_conn_def str_def)
  from failing_statement_no_table [OF h1 h2] h1 h2 show ?thesis
    by simp
qed

section \<open>Properties of the generator\<close>

text \<open>
  With a client, \<^verbatim>\<open>generate_sql_with_gpt\<close> returns normally and its first event is the
  call of the service; without one it raises and nothing has happened.
\<close>

lemma api_call_first:
  "get_openai_client e = Inr client \<Longrightarrow>
   \<exists>r ev. generate_sql_with_gpt e q = (Inr r, Api_call (build_prompt (DATABASE_SCHEMA e) q) # ev)"
  by (simp add: generate_sql_with_gpt_def Let_def split: sum.splits)

lemma no_client_raises:
  "get_openai_client e = Inl ex \<Longrightarrow> generate_sql_with_gpt e q = (Inl ex, [])"
  by (simp add: generate_sql_with_gpt_def)

text \<open>
  In \<^verbatim>\<open>llm_app.py\<close> a failing call is caught inside \<^verbatim>\<open>generate_sql_with_gpt\<close>: one
  call, the message shown, \<^verbatim>\<open>(None, None)\<close> returned.
\<close>

lemma generate_sql_with_gpt_catches:
  "get_openai_client e = Inr client \<Longrightarrow> client (build_prompt (DATABASE_SCHEMA e) q) = Inl m \<Longrightarrow>
   generate_sql_with_gpt e q =
     (Inr (None, None),
      [Api_call (build_prompt (DATABASE_SCHEMA e) q), St_error (str ''Error calling OpenAI API: '' @ m)])"
  by (simp add: generate_sql_with_gpt_def Let_def)

text \<open>
  C3. A failure of the language-model call should be caught where it occurs and turned
  into an absent result with the message. \<^verbatim>\<open>app.ask_openai\<close> has no handler: when the
  service raises with message \<open>m\<close>, the exception leaves \<^verbatim>\<open>ask_openai\<close> and ends the
  run of the script, while \<^verbatim>\<open>llm_app.generate_sql_with_gpt\<close> catches it
  (\<open>generate_sql_with_gpt_catches\<close>).
\<close>

theorem ask_openai_propagates:
  "ask_openai (e\<lparr>chat_completions_create := \<lambda>p. Inl m\<rparr>) prompt = (Inl (Raised m), [Api_call prompt])"
  by (simp add: ask_openai_def)

lemma strip_spaces: "strip (str ''   '') = []"
  by (simp add: strip_def lstrip_def rstrip_def str_def isspace_def)

lemma spaces_nonempty: "str ''   '' \<noteq> []"
  by (simp add: str_def)

text \<open>In \<^verbatim>\<open>app.py\<close> a blank question never reaches the service.\<close>

lemma ask_ai_rejects_blank: "strip user_prompt = [] \<Longrightarrow> ask_ai_section e b user_prompt = (Inr None, [])"
  by (simp add: ask_ai_section_def)

text \<open>
  C2. A question that is empty or only white space should be rejected before any call of
  the language model. \<^verbatim>\<open>llm_app.main\<close> tests the text area before stripping it: a
  question of three spaces passes the test, is stripped to the empty string, and, the
  client being built, the completion service is called with the prompt built from the
  empty question. (\<^verbatim>\<open>app.py\<close> tests the stripped text, \<open>ask_ai_rejects_blank\<close>.)
\<close>

theorem whitespace_question_reaches_generator:
  assumes "get_openai_client e = Inr client"
  shows "Api_call (build_prompt (DATABASE_SCHEMA e) [])
     \<in> set (fst (snd (main e \<lparr>user_question = str ''   '', generate_button = True,
                               clear_button = False, edited_sql = [], run_button = False\<rparr> d)))"
proof -
  obtain r ev where g:
    "generate_sql_with_gpt e [] = (Inr r, Api_call (build_prompt (DATABASE_SCHEMA e) []) # ev)"
    using api_call_first [OF assms] by blast
  show ?thesis
    by (cases r)
       (simp add: main_def generate_section_def strip_spaces spaces_nonempty g Let_def
          split: prod.splits)
qed

lemma demo_client: "get_openai_client demo_env = Inr (\<lambda>p. Inl (str ''quota exceeded''))"
  by (simp add: get_openai_client_def demo_env_def)

theorem whitespace_question_reaches_generator_witness:
  "get_openai_client demo_env = Inr (\<lambda>p. Inl (str ''quota exceeded'')) \<and>
   Api_call (build_prompt (DATABASE_SCHEMA demo_env) [])
     \<in> set (fst (snd (main demo_env \<lparr>user_question = str ''   '', generate_button = True,
                                     clear_button = False, edited_sql = [], run_button = False\<rparr>
                          (stored demo_state))))"
  using whitespace_question_reaches_generator [OF demo_client, of "stored demo_state"] demo_client
  by simp

section \<open>Properties of the session state\<close>

lemma demo_run_query:
  "run_query demo_env (str ''SELECT 1'') =
     (Some \<lparr>df_columns = [str ''1''], df_rows = [[str ''1'']]\<rparr>, [Sql_exec (str ''SELECT 1'')])"
  by (simp add: run_query_def get_db_connection_def demo_env_def demo_conn_def)

lemma strip_select1: "strip (str ''SELECT 1'') = str ''SELECT 1''"
  by (simp add: strip_def lstrip_def rstrip_def str_def isspace_def)

lemma strip_B: "strip (str ''B'') = str ''B''"
  by (simp add: strip_def lstrip_def rstrip_def str_def isspace_def)

text \<open>
  C4. When the generate action runs with a question (stripped) other than the recorded
  one, the writes that clear \<^verbatim>\<open>generated_sql\<close> and \<^verbatim>\<open>current_question\<close> come first in
  the run, before anything the generator does. If the client cannot be built, the
  exception ends the run right after them, with the session cleared. Otherwise the call
  of the completion service follows, and afterwards the session holds either no SQL at
  all or the SQL of this call together with the new question.
\<close>

theorem stale_sql_cleared_before_generate:
  assumes "generate_button w" and "user_question w \<noteq> []"
    and "current_question s \<noteq> Some (strip (user_question w))"
  shows "case get_openai_client e of
           Inl ex \<Rightarrow>
             generate_section e w s =
               (Some ex, strip (user_question w),
                s\<lparr>generated_sql := None, current_question := None\<rparr>,
                [Set_generated_sql None, Set_current_question None])
         | Inr client \<Rightarrow>
             (\<exists>s' ev.
                generate_section e w s =
                  (None, strip (user_question w), s',
                   [Set_generated_sql None, Set_current_question None,
                    Api_call (build_prompt (DATABASE_SCHEMA e) (strip (user_question w)))] @ ev) \<and>
                (generated_sql s' = None \<and> current_question s' = None \<or>
                 (\<exists>response. fst (generate_sql_with_gpt e (strip (user_question w))) =
                               Inr (generated_sql s', response)) \<and>
                 current_question s' = Some (strip (user_question w))))"
proof (cases "get_openai_client e")
  case (Inl ex)
  with assms show ?thesis
    by (simp add: generate_section_def invalidate_stale_def no_client_raises Let_def)
next
  case (Inr client)
  then obtain r ev where g:
    "generate_sql_with_gpt e (strip (user_question w)) =
       (Inr r, Api_call (build_prompt (DATABASE_SCHEMA e) (strip (user_question w))) # ev)"
    using api_call_first by blast
  show ?thesis
    using assms Inr
    by (cases r) (simp add: generate_section_def invalidate_stale_def g Let_def)
qed

theorem stale_sql_cleared_before_generate_witness:
  "generate_button demo_generate_click \<and> user_question demo_generate_click \<noteq> [] \<and>
   current_question demo_state \<noteq> Some (strip (user_question demo_generate_click)) \<and>
   get_openai_client demo_env = Inr (\<lambda>p. Inl (str ''quota exceeded'')) \<and>
   generate_section demo_env demo_generate_click demo_state =
     (None, str ''B'', demo_state\<lparr>generated_sql := None, current_question := None\<rparr>,
      [Set_generated_sql None, Set_current_question None,
       Api_call (build_prompt [] (str ''B'')),
       St_error (str ''Error calling OpenAI API: '' @ str ''quota exceeded'')])"
proof -
  have h1: "generate_button demo_generate_click" and h2: "user_question demo_generate_click \<noteq> []"
    and h3: "current_question demo_state \<noteq> Some (strip (user_question demo_generate_click))"
    by (simp_all add: demo_generate_click_def demo_state_def strip_B) (simp_all add: str_def)
  have g: "generate_sql_with_gpt demo_env (str ''B'') =
      (Inr (None, None), [Api_call (build_prompt [] (str ''B'')),
        St_error (str ''Error calling OpenAI API: '' @ str ''quota exceeded'')])"
    by (simp add: generate_sql_with_gpt_def get_openai_client_def demo_env_def Let_def)
  from stale_sql_cleared_before_generate [OF h1 h2 h3, of demo_env] h1 h2 h3 demo_client
  show ?thesis
    by (simp add: generate_section_def invalidate_stale_def demo_generate_click_def strip_B g
        truthy_def Let_def)
qed



text \<open>The generate action never touches the history, and a run only ever extends it.\<close>

lemma generate_section_history:
  "generate_section e w s = (exc, q, s', ev) \<Longrightarrow> query_history s' = query_history s"
  by (auto simp: generate_section_def invalidate_stale_def Let_def
      split: if_splits prod.splits sum.splits)

lemma run_section_history_prefix:
  "run_section e w q s = (s', ev) \<Longrightarrow> prefix (query_history s) (query_history s')"
  by (auto simp: run_section_def Let_def split: if_splits prod.splits option.splits)

lemma main_history_prefix:
  "prefix (query_history (init_session_state d)) (query_history (init_session_state (fst (main e w d))))"
proof -
  obtain exc q s1 ev1 where g: "generate_section e w (init_session_state d) = (exc, q, s1, ev1)"
    by (cases "generate_section e w (init_session_state d)") auto
  obtain s2 ev2 where r: "run_section e w q s1 = (s2, ev2)"
    by (cases "run_section e w q s1") auto
  have i: "init_session_state (stored t) = t" for t
    by (simp add: init_session_state_def stored_def)
  show ?thesis
  proof (cases exc)
    case None
    with g r have "fst (main e w d) = stored s2"
      by (simp add: main_def Let_def)
    with generate_section_history [OF g] run_section_history_prefix [OF r] show ?thesis
      by (simp add: i)
  next
    case (Some ex)
    with g have "fst (main e w d) = stored s1"
      by (simp add: main_def Let_def)
    with generate_section_history [OF g] show ?thesis
      by (simp add: i)
  qed
qed

text \<open>
  C9. The history should be emptied by the clear-history action. The button
  \<^verbatim>\<open>Clear History\<close> is created and its value is never read: a run in which it was clicked
  leaves a history of one entry as it is. (No run removes or reorders entries either,
  \<open>main_history_prefix\<close>, so nothing ever empties the history of a session.)
\<close>

theorem clear_history_ignored:
  "query_history_key
     (fst (main e \<lparr>user_question = [], generate_button = False, clear_button = True,
                   edited_sql = [], run_button = False\<rparr>
             \<lparr>generated_sql_key = Some None, current_question_key = Some None,
              query_history_key = Some [entry]\<rparr>)) = Some [entry]"
  by (simp add: main_def init_session_state_def generate_section_def run_section_def stored_def truthy_def)

text \<open>
  C10. When Run Query is clicked (so Generate SQL is not) and the execution succeeds, the
  entry appended has as its question the content of the question text area of that run,
  whatever question is recorded in \<^verbatim>\<open>current_question\<close>; its SQL is the content of the
  editor. With question A recorded for \<^verbatim>\<open>SELECT 1\<close> and B in the text area, the entry
  pairs B with \<^verbatim>\<open>SELECT 1\<close>.
\<close>

theorem history_question_is_text_area:
  assumes "run_button w" and "\<not> generate_button w"
    and "truthy (generated_sql (init_session_state d))"
    and "strip (edited_sql w) \<noteq> []"
    and "fst (run_query e (edited_sql w)) = Some df"
  shows "query_history_key (fst (main e w d)) =
           Some (query_history (init_session_state d)
                 @ [\<lparr>question = user_question w, sql = edited_sql w, rows = len_df df\<rparr>])"
  using assms
  by (cases "run_query e (edited_sql w)")
     (simp add: main_def generate_section_def run_section_def stored_def Let_def)

theorem history_question_is_text_area_witness:
  "current_question (init_session_state (stored demo_state)) = Some (str ''A'') \<and>
   generated_sql (init_session_state (stored demo_state)) = Some (str ''SELECT 1'') \<and>
   user_question demo_run_click = str ''B'' \<and> str ''A'' \<noteq> str ''B'' \<and>
   query_history_key (fst (main demo_env demo_run_click (stored demo_state))) =
     Some [\<lparr>question = str ''B'', sql = str ''SELECT 1'', rows = 1\<rparr>]"
proof -
  have i: "init_session_state (stored demo_state) = demo_state"
    by (simp add: init_session_state_def stored_def demo_state_def)
  have h1: "run_button demo_run_click" and h2: "\<not> generate_button demo_run_click"
    and h3: "truthy (generated_sql (init_session_state (stored demo_state)))"
    and h4: "strip (edited_sql demo_run_click) \<noteq> []"
    and h5: "fst (run_query demo_env (edited_sql demo_run_click)) =
               Some \<lparr>df_columns = [str ''1''], df_rows = [[str ''1'']]\<rparr>"
    unfolding i
    by (simp_all add: demo_run_click_def demo_state_def truthy_def strip_select1 demo_run_query)
       (simp_all add: str_def)
  from history_question_is_text_area [OF h1 h2 h3 h4 h5] show ?thesis
    by (simp add: i len_df_def) (simp add: demo_state_def demo_run_click_def str_def)
qed

end
